theory Spec2Isabelle
  imports Main
begin

section \<open>Data model of \<open>archive.ts\<close>\<close>

text \<open>
  Strings of the program are lists of code units. The model covers the code units
  U+0000 to U+00FF, which is what \<^typ>\<open>char\<close> holds.
\<close>

text \<open>\<^verbatim>\<open>export interface Archive { server: string; slug: string }\<close>\<close>

record Archive =
  server :: string
  slug :: string

text \<open>\<^verbatim>\<open>export enum ArchiveVideoKind { Videos, Livestreams, Shorts }\<close>\<close>

datatype ArchiveVideoKind = Videos | Livestreams | Shorts

text \<open>
  \<^verbatim>\<open>archiveVideoKindToString\<close>: the \<^verbatim>\<open>switch\<close> over the three enumerators, in the
  order of the source.
\<close>

fun archiveVideoKindToString :: "ArchiveVideoKind \<Rightarrow> string" where
  "archiveVideoKindToString Videos = ''videos''"
| "archiveVideoKindToString Livestreams = ''livestreams''"
| "archiveVideoKindToString Shorts = ''shorts''"

section \<open>Errors\<close>

text \<open>
  What the program and the platform throw, as values: \<open>Error m\<close> is \<^verbatim>\<open>new Error(m)\<close>,
  \<open>TypeError\<close> and \<open>SyntaxError\<close> are the platform's (an invalid URL, invalid JSON, a
  property read on \<^verbatim>\<open>null\<close>), \<open>NetworkError\<close> is a \<^verbatim>\<open>fetch\<close> that got no response,
  \<open>Redirect\<close> is SvelteKit's \<^verbatim>\<open>redirect(status, location)\<close>. \<open>Unmodelled\<close> marks an
  input on which a platform function of this theory does not follow the platform
  (a code unit above U+00FF, a URL outside the plain fragment below).
\<close>

datatype error =
    Error string
  | TypeError
  | SyntaxError
  | NetworkError
  | Redirect nat string
  | Unmodelled

section \<open>The session store\<close>

text \<open>
  The store module (\<^verbatim>\<open>./store\<close>) is not among the source files. Its value is
  used by \<^verbatim>\<open>archive.ts\<close> through two fields only: \<^verbatim>\<open>openedArchive\<close>, compared with
  \<^verbatim>\<open>undefined\<close>, and \<^verbatim>\<open>recents\<close>, an array of archives.
\<close>

record yark_store =
  openedArchive :: "Archive option"
  recents :: "Archive list"

text \<open>
  Modelled from the spec: the initial value of \<^verbatim>\<open>yarkStore\<close> (module \<^verbatim>\<open>./store\<close>, not in
  the sources): no archive open, empty recents.
\<close>

definition initial_store :: yark_store where
  "initial_store = \<lparr>openedArchive = None, recents = []\<rparr>"

text \<open>
  The application state that \<^verbatim>\<open>setCurrentArchive\<close> writes: the store and the
  location that \<^verbatim>\<open>goto\<close> navigates to.
\<close>

record app =
  yarkStore :: yark_store
  location :: string

definition RECENTS_MAX :: nat where
  "RECENTS_MAX = 30"

text \<open>
  The callback given to \<^verbatim>\<open>yarkStore.update\<close>: set the open archive, \<^verbatim>\<open>shift\<close> the
  recents when their length has reached \<^verbatim>\<open>RECENTS_MAX\<close>, \<^verbatim>\<open>push\<close> the archive.
  \<^verbatim>\<open>shift\<close> removes the first element (and leaves an empty array empty).
\<close>

definition update_store :: "Archive \<Rightarrow> yark_store \<Rightarrow> yark_store" where
  "update_store archive v0 =
     (let v1 = v0\<lparr>openedArchive := Some archive\<rparr>;
          v2 = (if length (recents v1) \<ge> RECENTS_MAX
                then v1\<lparr>recents := tl (recents v1)\<rparr> else v1)
      in v2\<lparr>recents := recents v2 @ [archive]\<rparr>)"

definition setCurrentArchive :: "Archive \<Rightarrow> app \<Rightarrow> app" where
  "setCurrentArchive archive a =
     a\<lparr>yarkStore := update_store archive (yarkStore a), location := ''/archive/videos''\<rparr>"

text \<open>A sequence of calls, in order, from a given application state.\<close>

definition setCurrentArchive_calls :: "Archive list \<Rightarrow> app \<Rightarrow> app" where
  "setCurrentArchive_calls archives a = foldl (\<lambda>s x. setCurrentArchive x s) a archives"

definition initial_app :: "string \<Rightarrow> app" where
  "initial_app loc = \<lparr>yarkStore = initial_store, location = loc\<rparr>"

section \<open>JSON\<close>

text \<open>
  A JSON value. A number is kept as its source text: the double it denotes is not
  modelled. An object is the list of its properties in the order they were added.
\<close>

datatype json =
    JNull
  | JBool bool
  | JNumber string
  | JString string
  | JArray "json list"
  | JObject "(string \<times> json) list"

definition dquote :: char where
  "dquote = CHR 0x22"

definition backslash :: char where
  "backslash = CHR 0x5C"

subsection \<open>JSON.parse\<close>

text \<open>
  \<^verbatim>\<open>JSON.parse\<close> follows the JSON grammar: white space is space, tab, line feed and
  carriage return; a string is a quote, then code units from U+0020 on other than the
  quote and the backslash, or escapes, then a quote; a number is an optional minus, an
  integer part without a leading zero, an optional fraction and an optional exponent.
\<close>

definition is_ws :: "char \<Rightarrow> bool" where
  "is_ws c = (c = CHR 0x20 \<or> c = CHR 0x09 \<or> c = CHR 0x0A \<or> c = CHR 0x0D)"

definition skip_ws :: "string \<Rightarrow> string" where
  "skip_ws = dropWhile is_ws"

definition is_digit :: "char \<Rightarrow> bool" where
  "is_digit c = (c \<in> set ''0123456789'')"

definition hex_digits :: string where
  "hex_digits = ''0123456789abcdef''"

fun index_of :: "char \<Rightarrow> string \<Rightarrow> nat option" where
  "index_of c [] = None"
| "index_of c (x # xs) = (if c = x then Some 0 else map_option Suc (index_of c xs))"

definition hex_val :: "char \<Rightarrow> nat option" where
  "hex_val c =
     (case index_of c hex_digits of
        Some n \<Rightarrow> Some n
      | None \<Rightarrow> map_option (\<lambda>n. n + 10) (index_of c ''ABCDEF''))"

definition hex4 :: "char \<Rightarrow> char \<Rightarrow> char \<Rightarrow> char \<Rightarrow> nat option" where
  "hex4 a b c d =
     (case (hex_val a, hex_val b, hex_val c, hex_val d) of
        (Some w, Some x, Some y, Some z) \<Rightarrow> Some (((w * 16 + x) * 16 + y) * 16 + z)
      | _ \<Rightarrow> None)"

definition unescape :: "char \<Rightarrow> char option" where
  "unescape e =
     (if e = dquote then Some dquote
      else if e = backslash then Some backslash
      else if e = CHR ''/'' then Some CHR ''/''
      else if e = CHR ''b'' then Some (CHR 0x08)
      else if e = CHR ''f'' then Some (CHR 0x0C)
      else if e = CHR ''n'' then Some (CHR 0x0A)
      else if e = CHR ''r'' then Some (CHR 0x0D)
      else if e = CHR ''t'' then Some (CHR 0x09)
      else None)"

text \<open>
  \<open>parse_chars\<close> reads a string after its opening quote and yields the string and the
  rest of the input. An escape \<^verbatim>\<open>\uXXXX\<close> above U+00FF is outside the strings of this
  theory.
\<close>

definition with_char :: "char \<Rightarrow> error + (string \<times> string) \<Rightarrow> error + (string \<times> string)" where
  "with_char c r = (case r of Inl e \<Rightarrow> Inl e | Inr (s, rest) \<Rightarrow> Inr (c # s, rest))"

fun parse_chars :: "string \<Rightarrow> error + (string \<times> string)" where
  "parse_chars [] = Inl SyntaxError"
| "parse_chars (c # cs) =
     (if c = dquote then Inr ([], cs)
      else if c = backslash then
        (case cs of
           [] \<Rightarrow> Inl SyntaxError
         | e # r \<Rightarrow>
             if e = CHR ''u'' then
               (case r of
                  h1 # h2 # h3 # h4 # r' \<Rightarrow>
                    (case hex4 h1 h2 h3 h4 of
                       None \<Rightarrow> Inl SyntaxError
                     | Some n \<Rightarrow>
                         if n < 256 then with_char (char_of n) (parse_chars r')
                         else Inl Unmodelled)
                | _ \<Rightarrow> Inl SyntaxError)
             else
               (case unescape e of
                  None \<Rightarrow> Inl SyntaxError
                | Some x \<Rightarrow> with_char x (parse_chars r)))
      else if of_char c < (0x20 :: nat) then Inl SyntaxError
      else with_char c (parse_chars cs))"

text \<open>\<open>strip_prefix p s\<close> is the rest of \<open>s\<close> after its prefix \<open>p\<close>.\<close>

fun strip_prefix :: "string \<Rightarrow> string \<Rightarrow> string option" where
  "strip_prefix [] s = Some s"
| "strip_prefix (p # ps) [] = None"
| "strip_prefix (p # ps) (c # cs) = (if p = c then strip_prefix ps cs else None)"

definition parse_frac :: "string \<Rightarrow> (string \<times> string) option" where
  "parse_frac s =
     (case s of
        [] \<Rightarrow> Some ([], s)
      | c # r \<Rightarrow>
          if c = CHR ''.'' then
            (if takeWhile is_digit r = [] then None
             else Some (c # takeWhile is_digit r, dropWhile is_digit r))
          else Some ([], s))"

definition parse_sign :: "string \<Rightarrow> string \<times> string" where
  "parse_sign s =
     (case s of
        [] \<Rightarrow> ([], s)
      | c # r \<Rightarrow> if c = CHR ''+'' \<or> c = CHR ''-'' then ([c], r) else ([], s))"

definition parse_exp :: "string \<Rightarrow> (string \<times> string) option" where
  "parse_exp s =
     (case s of
        [] \<Rightarrow> Some ([], s)
      | c # r \<Rightarrow>
          if c = CHR ''e'' \<or> c = CHR ''E'' then
            (case parse_sign r of
               (sg, r1) \<Rightarrow>
                 if takeWhile is_digit r1 = [] then None
                 else Some (c # sg @ takeWhile is_digit r1, dropWhile is_digit r1))
          else Some ([], s))"

definition parse_int :: "string \<Rightarrow> (string \<times> string) option" where
  "parse_int s =
     (case s of
        [] \<Rightarrow> None
      | c # r \<Rightarrow>
          if c = CHR ''0'' then Some ([c], r)
          else if is_digit c then Some (takeWhile is_digit s, dropWhile is_digit s)
          else None)"

definition parse_number :: "string \<Rightarrow> error + (string \<times> string)" where
  "parse_number s =
     (case (case s of [] \<Rightarrow> ([], s) | c # r \<Rightarrow> if c = CHR ''-'' then ([c], r) else ([], s)) of
        (sg, s1) \<Rightarrow>
          (case parse_int s1 of
             None \<Rightarrow> Inl SyntaxError
           | Some (ip, s2) \<Rightarrow>
               (case parse_frac s2 of
                  None \<Rightarrow> Inl SyntaxError
                | Some (fp, s3) \<Rightarrow>
                    (case parse_exp s3 of
                       None \<Rightarrow> Inl SyntaxError
                     | Some (ep, s4) \<Rightarrow> Inr (sg @ ip @ fp @ ep, s4)))))"

text \<open>
  A property added to an object: a repeated name keeps its place and takes the new value.
\<close>

fun obj_put :: "(string \<times> json) list \<Rightarrow> string \<Rightarrow> json \<Rightarrow> (string \<times> json) list" where
  "obj_put [] k v = [(k, v)]"
| "obj_put ((k', v') # kvs) k v =
     (if k' = k then (k, v) # kvs else (k', v') # obj_put kvs k v)"

lemma skip_ws_shorter: "skip_ws s = c # r \<Longrightarrow> length r < length s"
proof -
  assume a: "skip_ws s = c # r"
  have "length (skip_ws s) \<le> length s"
    by (simp add: skip_ws_def length_dropWhile_le)
  with a show ?thesis by simp
qed

lemma with_char_Inr:
  "with_char c x = Inr (s, r) \<Longrightarrow> \<exists>s'. x = Inr (s', r) \<and> s = c # s'"
  by (auto simp: with_char_def split: sum.splits)

lemma parse_chars_shorter: "parse_chars s = Inr (str, r) \<Longrightarrow> length r < length s"
proof (induction s arbitrary: str rule: parse_chars.induct)
  case 1
  then show ?case by simp
next
  case (2 c cs)
  show ?case
  proof (cases "c = dquote")
    case True
    with "2.prems" show ?thesis by simp
  next
    case nq: False
    show ?thesis
    proof (cases "c = backslash")
      case False
      with nq "2.prems" have "with_char c (parse_chars cs) = Inr (str, r)"
        by (simp split: if_splits)
      then obtain s' where "parse_chars cs = Inr (s', r)"
        using with_char_Inr by blast
      with "2.IH"(3) nq False "2.prems" have "length r < length cs"
        by (auto split: if_splits)
      then show ?thesis by simp
    next
      case bs: True
      with nq "2.prems" obtain e r0 where cs: "cs = e # r0"
        by (cases cs) auto
      show ?thesis
      proof (cases "e = CHR ''u''")
        case True
        with nq bs cs "2.prems" obtain h1 h2 h3 h4 r' n where
          r0: "r0 = h1 # h2 # h3 # h4 # r'" and h: "hex4 h1 h2 h3 h4 = Some n" and n: "n < 256"
          and w: "with_char (char_of n) (parse_chars r') = Inr (str, r)"
          by (auto split: list.splits option.splits if_splits)
        from w obtain s' where "parse_chars r' = Inr (s', r)"
          using with_char_Inr by blast
        with "2.IH"(1) nq bs cs True r0 h n have "length r < length r'"
          by blast
        with cs r0 show ?thesis by simp
      next
        case False
        with nq bs cs "2.prems" obtain x where u: "unescape e = Some x"
          and w: "with_char x (parse_chars r0) = Inr (str, r)"
          by (auto split: option.splits)
        from w obtain s' where "parse_chars r0 = Inr (s', r)"
          using with_char_Inr by blast
        with "2.IH"(2) nq bs cs False u have "length r < length r0"
          by blast
        with cs show ?thesis by simp
      qed
    qed
  qed
qed

text \<open>
  The parser proper: a value, the elements of an array after its first bracket, the
  members of an object after its first brace. Each yields the value and the rest of
  the input. The tests \<open>length r' < length s\<close> and \<open>length r4 < length s\<close> make the
  recursion well-founded; they never fail (\<open>parse_elements_unguarded\<close>,
  \<open>parse_members_unguarded\<close> below).
\<close>

function parse_value :: "string \<Rightarrow> error + (json \<times> string)"
  and parse_elements :: "json list \<Rightarrow> string \<Rightarrow> error + (json \<times> string)"
  and parse_members :: "(string \<times> json) list \<Rightarrow> string \<Rightarrow> error + (json \<times> string)"
where
  "parse_value s =
     (case skip_ws s of
        [] \<Rightarrow> Inl SyntaxError
      | c # r \<Rightarrow>
          if c = CHR ''['' then
            (case skip_ws r of
               [] \<Rightarrow> Inl SyntaxError
             | c' # r' \<Rightarrow> if c' = CHR '']'' then Inr (JArray [], r') else parse_elements [] r)
          else if c = CHR ''{'' then
            (case skip_ws r of
               [] \<Rightarrow> Inl SyntaxError
             | c' # r' \<Rightarrow> if c' = CHR ''}'' then Inr (JObject [], r') else parse_members [] r)
          else if c = dquote then
            (case parse_chars r of
               Inl e \<Rightarrow> Inl e
             | Inr (str, r') \<Rightarrow> Inr (JString str, r'))
          else
            (case strip_prefix ''true'' (c # r) of
               Some r' \<Rightarrow> Inr (JBool True, r')
             | None \<Rightarrow>
                 (case strip_prefix ''false'' (c # r) of
                    Some r' \<Rightarrow> Inr (JBool False, r')
                  | None \<Rightarrow>
                      (case strip_prefix ''null'' (c # r) of
                         Some r' \<Rightarrow> Inr (JNull, r')
                       | None \<Rightarrow>
                           (case parse_number (c # r) of
                              Inl e \<Rightarrow> Inl e
                            | Inr (lexeme, r') \<Rightarrow> Inr (JNumber lexeme, r'))))))"
| "parse_elements acc s =
     (case parse_value s of
        Inl e \<Rightarrow> Inl e
      | Inr (v, r) \<Rightarrow>
          (case skip_ws r of
             [] \<Rightarrow> Inl SyntaxError
           | c # r' \<Rightarrow>
               if c = CHR '','' then
                 (if length r' < length s then parse_elements (acc @ [v]) r'
                  else Inl SyntaxError)
               else if c = CHR '']'' then Inr (JArray (acc @ [v]), r')
               else Inl SyntaxError))"
| "parse_members acc s =
     (case skip_ws s of
        [] \<Rightarrow> Inl SyntaxError
      | c # r \<Rightarrow>
          if c = dquote then
            (case parse_chars r of
               Inl e \<Rightarrow> Inl e
             | Inr (k, r1) \<Rightarrow>
                 (case skip_ws r1 of
                    [] \<Rightarrow> Inl SyntaxError
                  | c1 # r2 \<Rightarrow>
                      if c1 = CHR '':'' then
                        (case parse_value r2 of
                           Inl e \<Rightarrow> Inl e
                         | Inr (v, r3) \<Rightarrow>
                             (case skip_ws r3 of
                                [] \<Rightarrow> Inl SyntaxError
                              | c3 # r4 \<Rightarrow>
                                  if c3 = CHR '','' then
                                    (if length r4 < length s
                                     then parse_members (obj_put acc k v) r4
                                     else Inl SyntaxError)
                                  else if c3 = CHR ''}'' then Inr (JObject (obj_put acc k v), r4)
                                  else Inl SyntaxError))
                      else Inl SyntaxError))
          else Inl SyntaxError)"
  by pat_completeness auto
termination
proof (relation "measure (\<lambda>x. case x of
          Inl s \<Rightarrow> 2 * length s
        | Inr (Inl (acc, s)) \<Rightarrow> 2 * length s + 1
        | Inr (Inr (acc, s)) \<Rightarrow> 2 * length s + 1)", goal_cases)
  case 1
  show ?case by simp
next
  case (2 s c r c' r')
  then show ?case using skip_ws_shorter [of s c r] by simp
next
  case (3 s c r c' r')
  then show ?case using skip_ws_shorter [of s c r] by simp
next
  case (4 acc s)
  show ?case by simp
next
  case (5 acc s x v r c r')
  then show ?case by simp
next
  case (6 acc s c r x k r1 c1 r2)
  have "length r < length s" using 6 skip_ws_shorter [of s c r] by simp
  moreover have "length r1 < length r" using 6 parse_chars_shorter [of r k r1] by simp
  moreover have "length r2 < length r1" using 6 skip_ws_shorter [of r1 c1 r2] by simp
  ultimately show ?case by simp
next
  case (7 acc s c r x k r1 c1 r2 xa v r3 c3 r4)
  then show ?case by simp
qed

declare parse_value.simps [simp del] parse_elements.simps [simp del] parse_members.simps [simp del]

text \<open>The whole text is one value, with white space around it.\<close>

definition JSON_parse :: "string \<Rightarrow> error + json" where
  "JSON_parse s =
     (case parse_value s of
        Inl e \<Rightarrow> Inl e
      | Inr (v, r) \<Rightarrow> if skip_ws r = [] then Inr v else Inl SyntaxError)"

subsection \<open>JSON.stringify\<close>

text \<open>
  \<^verbatim>\<open>JSON.stringify\<close> quotes a string: the short escapes for backspace, tab, line feed,
  form feed, carriage return, the quote and the backslash, \<^verbatim>\<open>\u00XX\<close> in lowercase for the
  other code units below U+0020, and every other code unit as it is. Arrays and objects
  are written without white space. A number is written as its source text, which is
  not what the platform does for every number; the program stringifies strings, and
  objects and arrays of them, only.
\<close>

definition unicode_escape :: "nat \<Rightarrow> string" where
  "unicode_escape n =
     [backslash, CHR ''u'', CHR ''0'', CHR ''0'', hex_digits ! (n div 16), hex_digits ! (n mod 16)]"

definition quote_char :: "char \<Rightarrow> string" where
  "quote_char c =
     (if c = CHR 0x08 then [backslash, CHR ''b'']
      else if c = CHR 0x09 then [backslash, CHR ''t'']
      else if c = CHR 0x0A then [backslash, CHR ''n'']
      else if c = CHR 0x0C then [backslash, CHR ''f'']
      else if c = CHR 0x0D then [backslash, CHR ''r'']
      else if c = dquote then [backslash, dquote]
      else if c = backslash then [backslash, backslash]
      else if of_char c < (0x20 :: nat) then unicode_escape (of_char c)
      else [c])"

definition QuoteJSONString :: "string \<Rightarrow> string" where
  "QuoteJSONString s = dquote # concat (map quote_char s) @ [dquote]"

fun join_comma :: "string list \<Rightarrow> string" where
  "join_comma [] = []"
| "join_comma [x] = x"
| "join_comma (x # y # ys) = x @ CHR '','' # join_comma (y # ys)"

fun JSON_stringify :: "json \<Rightarrow> string" where
  "JSON_stringify JNull = ''null''"
| "JSON_stringify (JBool b) = (if b then ''true'' else ''false'')"
| "JSON_stringify (JNumber lexeme) = lexeme"
| "JSON_stringify (JString s) = QuoteJSONString s"
| "JSON_stringify (JArray xs) = CHR ''['' # join_comma (map JSON_stringify xs) @ '']''"
| "JSON_stringify (JObject kvs) =
     CHR ''{'' # join_comma (map (\<lambda>(k, v). QuoteJSONString k @ CHR '':'' # JSON_stringify v) kvs) @ ''}''"

section \<open>The platform: URL, fetch, the admin secret\<close>

text \<open>
  \<^verbatim>\<open>archive.ts\<close> calls the platform's \<^verbatim>\<open>URL\<close> class, \<^verbatim>\<open>fetch\<close>, and \<^verbatim>\<open>getAdminSecret\<close>
  of \<^verbatim>\<open>./utils\<close> (not in the sources). They are parameters of the model, collected in
  an environment; \<open>'u\<close> is the type of URL objects.
  \<^item> \<open>URL_new s\<close> is \<^verbatim>\<open>new URL(s)\<close>, which throws on an invalid URL;
  \<^item> \<open>URL_pathname\<close>, \<open>URL_set_pathname\<close> read and assign \<^verbatim>\<open>url.pathname\<close>;
  \<^item> \<open>URL_searchParams_set k v\<close> is \<^verbatim>\<open>url.searchParams.set(k, v)\<close>;
  \<^item> \<open>URL_href\<close> is the serialised URL, which \<^verbatim>\<open>fetch\<close> requests;
  \<^item> \<open>fetch\<close> answers a request with a response, or rejects;
  \<^item> \<open>getAdminSecret\<close> resolves to the token, or rejects.
\<close>

record request =
  req_method :: string
  req_url :: string
  req_headers :: "(string \<times> string) list"
  req_body :: "string option"

record response =
  resp_status :: nat
  resp_text :: string

record 'u env =
  URL_new :: "string \<Rightarrow> error + 'u"
  URL_pathname :: "'u \<Rightarrow> string"
  URL_set_pathname :: "string \<Rightarrow> 'u \<Rightarrow> 'u"
  URL_searchParams_set :: "string \<Rightarrow> string \<Rightarrow> 'u \<Rightarrow> 'u"
  URL_href :: "'u \<Rightarrow> string"
  fetch :: "request \<Rightarrow> error + response"
  getAdminSecret :: "error + string"

text \<open>
  An operation that talks to the server yields the requests it issued, in order, and
  its outcome: the value the promise resolves to, or the error it rejects with.
\<close>

type_synonym 'a outcome = "request list \<times> (error + 'a)"

definition GET :: "string \<Rightarrow> request" where
  "GET u = \<lparr>req_method = ''GET'', req_url = u, req_headers = [], req_body = None\<rparr>"

section \<open>The REST client of \<open>archive.ts\<close>\<close>

text \<open>
  \<^verbatim>\<open>CreateArchiveRemotePayload\<close> has the fields of \<^verbatim>\<open>Archive\<close>, \<^verbatim>\<open>path\<close> and \<^verbatim>\<open>target\<close>.
\<close>

record CreateArchiveRemotePayload = Archive +
  path :: string
  target :: string

text \<open>
  What \<^verbatim>\<open>createNewRemoteArchive\<close> returns: \<^verbatim>\<open>{ server, slug: resp_json.slug }\<close>. The slug is
  whatever the response holds under \<^verbatim>\<open>slug\<close>, not checked to be a string; \<open>None\<close> is
  \<^verbatim>\<open>undefined\<close>.
\<close>

record created_archive =
  created_server :: string
  created_slug :: "json option"

text \<open>
  \<^verbatim>\<open>resp_json.slug\<close>: a property read. It throws a \<^verbatim>\<open>TypeError\<close> on \<^verbatim>\<open>null\<close>, gives the
  property of an object, and \<^verbatim>\<open>undefined\<close> on an object without it and on every other
  value (no array, string, number or boolean has a property of this name).
\<close>

fun property_slug :: "json \<Rightarrow> error + json option" where
  "property_slug JNull = Inl TypeError"
| "property_slug (JObject kvs) = Inr (map_of kvs ''slug'')"
| "property_slug v = Inr None"

definition createNewRemoteArchive ::
  "'u env \<Rightarrow> CreateArchiveRemotePayload \<Rightarrow> created_archive outcome" where
  "createNewRemoteArchive E p =
     (let payload = JObject [(''slug'', JString (slug p)), (''path'', JString (path p)),
                             (''target'', JString (target p))]
      in case URL_new E (server p) of
           Inl e \<Rightarrow> ([], Inl e)
         | Inr url0 \<Rightarrow>
             (let url1 = URL_set_pathname E ''/archive'' url0;
                  url2 = URL_searchParams_set E ''intent'' ''create'' url1
              in case getAdminSecret E of
                   Inl e \<Rightarrow> ([], Inl e)
                 | Inr secret \<Rightarrow>
                     (let req = \<lparr>req_method = ''POST'', req_url = URL_href E url2,
                                 req_headers = [(''Content-Type'', ''application/json''),
                                                (''Authentication'', ''Bearer '' @ secret)],
                                 req_body = Some (JSON_stringify payload)\<rparr>
                      in case fetch E req of
                           Inl e \<Rightarrow> ([req], Inl e)
                         | Inr resp \<Rightarrow>
                             (case JSON_parse (resp_text resp) of
                                Inl e \<Rightarrow> ([req], Inl e)
                              | Inr resp_json \<Rightarrow>
                                  (case property_slug resp_json of
                                     Inl e \<Rightarrow> ([req], Inl e)
                                   | Inr s \<Rightarrow>
                                       ([req], Inr \<lparr>created_server = server p,
                                                     created_slug = s\<rparr>))))))"

definition getOpenedArchiveAlways :: "yark_store \<Rightarrow> error + Archive" where
  "getOpenedArchiveAlways st =
     (case openedArchive st of
        None \<Rightarrow> Inl (Error ''Archive was expected to be open but it wasn't'')
      | Some archive \<Rightarrow> Inr archive)"

definition getArchiveApiLink :: "Archive \<Rightarrow> string" where
  "getArchiveApiLink archive = server archive @ ''/archive/'' @ slug archive"

definition getOpenedArchiveApiLink :: "yark_store \<Rightarrow> error + string" where
  "getOpenedArchiveApiLink st =
     (case getOpenedArchiveAlways st of
        Inl e \<Rightarrow> Inl e
      | Inr archive \<Rightarrow> Inr (getArchiveApiLink archive))"

definition getVideoThumbnailApiLink :: "yark_store \<Rightarrow> string \<Rightarrow> error + string" where
  "getVideoThumbnailApiLink st thumbnail_id =
     (case getOpenedArchiveApiLink st of
        Inl e \<Rightarrow> Inl e
      | Inr link \<Rightarrow> Inr (link @ ''/thumbnail/'' @ thumbnail_id))"

definition getVideoFileApiLink :: "yark_store \<Rightarrow> string \<Rightarrow> error + string" where
  "getVideoFileApiLink st videoId =
     (case getOpenedArchiveApiLink st of
        Inl e \<Rightarrow> Inl e
      | Inr link \<Rightarrow> Inr (link @ ''/video/'' @ videoId @ ''/file''))"

text \<open>
  \<^verbatim>\<open>fetchVideosBrief\<close> returns \<^verbatim>\<open>resp.json()\<close> as it is: the declared type
  \<^verbatim>\<open>VideoBrief[]\<close> is not checked at run time.
\<close>

definition fetchVideosBrief :: "'u env \<Rightarrow> yark_store \<Rightarrow> ArchiveVideoKind \<Rightarrow> json outcome" where
  "fetchVideosBrief E st kind =
     (case getOpenedArchiveApiLink st of
        Inl e \<Rightarrow> ([], Inl e)
      | Inr link \<Rightarrow>
          (case URL_new E link of
             Inl e \<Rightarrow> ([], Inl e)
           | Inr url0 \<Rightarrow>
               (let url1 = URL_searchParams_set E ''kind'' (archiveVideoKindToString kind) url0;
                    req = GET (URL_href E url1)
                in case fetch E req of
                     Inl e \<Rightarrow> ([req], Inl e)
                   | Inr resp \<Rightarrow> ([req], JSON_parse (resp_text resp)))))"

definition fetchVideoDetails :: "'u env \<Rightarrow> yark_store \<Rightarrow> string \<Rightarrow> (json \<times> string) outcome" where
  "fetchVideoDetails E st video_id =
     (case getOpenedArchiveApiLink st of
        Inl e \<Rightarrow> ([], Inl e)
      | Inr link \<Rightarrow>
          (case URL_new E link of
             Inl e \<Rightarrow> ([], Inl e)
           | Inr url0 \<Rightarrow>
               (let url1 = URL_set_pathname E (URL_pathname E url0 @ ''/video/'' @ video_id) url0;
                    req = GET (URL_href E url1)
                in case fetch E req of
                     Inl e \<Rightarrow> ([req], Inl e)
                   | Inr resp \<Rightarrow>
                       (let rawArchive = resp_text resp
                        in case JSON_parse rawArchive of
                             Inl e \<Rightarrow> ([req], Inl e)
                           | Inr json \<Rightarrow> ([req], Inr (json, rawArchive))))))"

text \<open>
  \<^verbatim>\<open>VideoDetailed\<close>. \<open>'e\<close> is the type \<^verbatim>\<open>Element\<close> of \<^verbatim>\<open>./element\<close> (not in the sources),
  \<open>'n\<close> the numbers, \<open>'c\<close> the comments object. The fields of \<^verbatim>\<open>Note\<close> are \<^verbatim>\<open>id\<close>,
  \<^verbatim>\<open>timestamp\<close>, \<^verbatim>\<open>title\<close> and \<^verbatim>\<open>body\<close>; three of them carry the prefix \<open>note_\<close> here,
  and the field \<^verbatim>\<open>notes\<close> of a video is \<open>video_notes\<close>.
\<close>

record 'n Note =
  note_id :: string
  timestamp :: 'n
  note_title :: string
  note_body :: string

record ('e, 'n, 'c) VideoDetailed =
  uploaded :: string
  width :: 'n
  height :: 'n
  title :: 'e
  description :: 'e
  views :: 'e
  likes :: 'e
  thumbnail :: 'e
  deleted :: 'e
  video_notes :: "'n Note list"
  comments :: 'c

text \<open>
  \<^verbatim>\<open>videoWasUpdated\<close>; \<^verbatim>\<open>elementWasUpdated\<close> of \<^verbatim>\<open>./element\<close> is the parameter
  \<open>elementWasUpdated\<close>, a predicate on elements.
\<close>

definition videoWasUpdated :: "('e \<Rightarrow> bool) \<Rightarrow> ('e, 'n, 'c) VideoDetailed \<Rightarrow> bool" where
  "videoWasUpdated elementWasUpdated video =
     (elementWasUpdated (title video) \<or> elementWasUpdated (description video)
      \<or> elementWasUpdated (thumbnail video))"

text \<open>
  \<^verbatim>\<open>deleteNote\<close> awaits the \<^verbatim>\<open>fetch\<close> and drops the response, whatever its status.
\<close>

definition deleteNote :: "'u env \<Rightarrow> yark_store \<Rightarrow> string \<Rightarrow> 'n Note \<Rightarrow> unit outcome" where
  "deleteNote E st video_id note =
     (case getOpenedArchiveApiLink st of
        Inl e \<Rightarrow> ([], Inl e)
      | Inr link \<Rightarrow>
          (case URL_new E link of
             Inl e \<Rightarrow> ([], Inl e)
           | Inr url0 \<Rightarrow>
               (let url1 = URL_set_pathname E
                             (URL_pathname E url0 @ ''/video/'' @ video_id @ ''/note/'' @ note_id note)
                             url0;
                    req = \<lparr>req_method = ''DELETE'', req_url = URL_href E url1,
                           req_headers = [], req_body = None\<rparr>
                in case fetch E req of
                     Inl e \<Rightarrow> ([req], Inl e)
                   | Inr resp \<Rightarrow> ([req], Inr ()))))"

section \<open>The page load of \<open>start/+layout.server.ts\<close>\<close>

text \<open>
  \<^verbatim>\<open>load\<close> gets the parent's \<^verbatim>\<open>archiveState\<close> (\<open>None\<close> is \<^verbatim>\<open>null\<close> or \<^verbatim>\<open>undefined\<close>) and
  the cookies, a function from a name to the cookie's value (\<open>None\<close> is \<^verbatim>\<open>undefined\<close>).
  It redirects when there is an archive state, and returns the recent archives
  otherwise: \<^verbatim>\<open>JSON.parse\<close> of the cookie, not checked to be a \<^verbatim>\<open>RecentArchive[]\<close>.
\<close>

definition load :: "'s option \<Rightarrow> (string \<Rightarrow> string option) \<Rightarrow> error + json" where
  "load archiveState cookies =
     (if archiveState \<noteq> None then Inl (Redirect 307 ''/archive'')
      else (let recentArchivesRaw = cookies ''recentArchives''
            in case recentArchivesRaw of
                 None \<Rightarrow> Inr (JArray [])
               | Some raw \<Rightarrow> JSON_parse raw))"

text \<open>
  Modelled from the spec: the type \<^verbatim>\<open>RecentArchive\<close> (module \<^verbatim>\<open>$lib/state\<close>, not in the
  sources), a record \<^verbatim>\<open>{server, slug}\<close>.
\<close>

type_synonym RecentArchive = Archive

text \<open>A recent archive, and an array of them, as the values \<^verbatim>\<open>JSON.parse\<close> yields.\<close>

definition recentArchive_json :: "RecentArchive \<Rightarrow> json" where
  "recentArchive_json a = JObject [(''server'', JString (server a)), (''slug'', JString (slug a))]"

definition recentArchives_json :: "RecentArchive list \<Rightarrow> json" where
  "recentArchives_json xs = JArray (map recentArchive_json xs)"

text \<open>
  Modelled from the spec: the code that writes the cookie \<^verbatim>\<open>recentArchives\<close> (not in the
  sources). The cookie holds the JSON encoding of the array of \<^verbatim>\<open>{server, slug}\<close>
  records.
\<close>

definition encode_recentArchives :: "RecentArchive list \<Rightarrow> string" where
  "encode_recentArchives xs = JSON_stringify (recentArchives_json xs)"

section \<open>A URL class for plain URLs\<close>

text \<open>
  An instance of the URL parameters, on which the requests can be computed as text.
  \<^item> \<open>plain_URL_new\<close> follows \<^verbatim>\<open>new URL\<close> on plain URLs: the scheme \<^verbatim>\<open>http\<close> or \<^verbatim>\<open>https\<close>, a
    host of labels that start with a lowercase letter and go on with lowercase letters
    and digits, and a path of letters, digits, \<^verbatim>\<open>-\<close>, \<^verbatim>\<open>_\<close> and \<^verbatim>\<open>/\<close>. On such a URL the
    platform changes nothing but an empty path, which becomes \<^verbatim>\<open>/\<close>. The platform accepts
    many more URLs (and normalises them); \<open>plain_URL_new\<close> answers \<open>Unmodelled\<close> there.
  \<^item> \<open>plain_set_pathname\<close> follows the assignment to \<^verbatim>\<open>url.pathname\<close> of the URL standard, for
    every string: tabs and newlines are removed, a first slash is skipped, and the rest
    is read by the standard's path state, which splits at \<^verbatim>\<open>/\<close> and \<^verbatim>\<open>\\<close>, percent-encodes
    the code units of the path percent-encode set, drops the segment \<^verbatim>\<open>.\<close> and lets the
    segment \<^verbatim>\<open>..\<close> remove the segment before it.
  \<^item> \<open>plain_searchParams_set\<close> is meant for a parameter name and value of letters and
    digits, which is what the program passes.
\<close>

record plain_url =
  scheme :: string
  host :: string
  pathname :: string
  searchParams :: "(string \<times> string) list"

definition is_lower :: "char \<Rightarrow> bool" where
  "is_lower c = (c \<in> set ''abcdefghijklmnopqrstuvwxyz'')"

definition is_upper :: "char \<Rightarrow> bool" where
  "is_upper c = (c \<in> set ''ABCDEFGHIJKLMNOPQRSTUVWXYZ'')"

definition is_path_char :: "char \<Rightarrow> bool" where
  "is_path_char c = (is_lower c \<or> is_upper c \<or> is_digit c \<or> c \<in> set ''-_/'')"

fun plain_label :: "string \<Rightarrow> bool" where
  "plain_label [] = False"
| "plain_label (c # cs) = (is_lower c \<and> list_all (\<lambda>x. is_lower x \<or> is_digit x) cs)"

fun split_dots :: "string \<Rightarrow> string \<Rightarrow> string list" where
  "split_dots acc [] = [acc]"
| "split_dots acc (c # cs) =
     (if c = CHR ''.'' then acc # split_dots [] cs else split_dots (acc @ [c]) cs)"

definition plain_host :: "string \<Rightarrow> bool" where
  "plain_host h = list_all plain_label (split_dots [] h)"

definition plain_path :: "string \<Rightarrow> bool" where
  "plain_path p = (list_all is_path_char p \<and> (p = [] \<or> hd p = CHR ''/''))"

definition plain_after_scheme :: "string \<Rightarrow> string \<Rightarrow> error + plain_url" where
  "plain_after_scheme sch r =
     (let h = takeWhile (\<lambda>c. c \<noteq> CHR ''/'') r;
          p = dropWhile (\<lambda>c. c \<noteq> CHR ''/'') r
      in if plain_host h \<and> plain_path p
         then Inr \<lparr>scheme = sch, host = h, pathname = (if p = [] then ''/'' else p),
                   searchParams = []\<rparr>
         else Inl Unmodelled)"

definition plain_URL_new :: "string \<Rightarrow> error + plain_url" where
  "plain_URL_new s =
     (case strip_prefix ''https://'' s of
        Some r \<Rightarrow> plain_after_scheme ''https'' r
      | None \<Rightarrow>
          (case strip_prefix ''http://'' s of
             Some r \<Rightarrow> plain_after_scheme ''http'' r
           | None \<Rightarrow> Inl Unmodelled))"

text \<open>
  The path percent-encode set: the C0 controls, the code units above U+007E, and space,
  \<^verbatim>\<open>"\<close>, \<^verbatim>\<open>#\<close>, \<^verbatim>\<open><\<close>, \<^verbatim>\<open>>\<close>, \<^verbatim>\<open>?\<close>, \<^verbatim>\<open>^\<close>, the backtick, \<^verbatim>\<open>{\<close> and \<^verbatim>\<open>}\<close>. A code unit of the set
  becomes \<^verbatim>\<open>%XX\<close> for each byte of its UTF-8 encoding, in uppercase.
\<close>

definition path_encoded :: "char \<Rightarrow> bool" where
  "path_encoded c =
     (of_char c < (0x20 :: nat) \<or> (0x7E :: nat) < of_char c
      \<or> c \<in> set [CHR 0x20, CHR 0x22, CHR 0x23, CHR 0x3C, CHR 0x3E, CHR 0x3F, CHR 0x5E,
                   CHR 0x60, CHR 0x7B, CHR 0x7D])"

definition percent_byte :: "nat \<Rightarrow> string" where
  "percent_byte n = [CHR ''%'', ''0123456789ABCDEF'' ! (n div 16), ''0123456789ABCDEF'' ! (n mod 16)]"

definition utf8_percent_encode :: "char \<Rightarrow> string" where
  "utf8_percent_encode c =
     (if path_encoded c then
        (if of_char c < (0x80 :: nat) then percent_byte (of_char c)
         else percent_byte (0xC0 + of_char c div 64) @ percent_byte (0x80 + of_char c mod 64))
      else [c])"

text \<open>The dot segments, with \<^verbatim>\<open>%2e\<close> for the dot in either case.\<close>

definition single_dot :: "string \<Rightarrow> bool" where
  "single_dot buf = (buf \<in> set [''.'', ''%2e'', ''%2E''])"

definition double_dot :: "string \<Rightarrow> bool" where
  "double_dot buf =
     (buf \<in> set [''..'', ''.%2e'', ''.%2E'', ''%2e.'', ''%2E.'',
                  ''%2e%2e'', ''%2e%2E'', ''%2E%2e'', ''%2E%2E''])"

definition is_slash :: "char \<Rightarrow> bool" where
  "is_slash c = (c = CHR ''/'' \<or> c = backslash)"

text \<open>
  The end of a segment in the path state, at a slash or at the end of the input: a
  double-dot segment removes the last segment of the path (if any), a single-dot segment
  adds nothing, and each of them leaves an empty last segment at the end of the input;
  any other segment is appended.
\<close>

definition end_segment :: "bool \<Rightarrow> string list \<Rightarrow> string \<Rightarrow> string list" where
  "end_segment at_slash segments buf =
     (if double_dot buf then (if at_slash then butlast segments else butlast segments @ [[]])
      else if single_dot buf then (if at_slash then segments else segments @ [[]])
      else segments @ [buf])"

fun path_state :: "string list \<Rightarrow> string \<Rightarrow> string \<Rightarrow> string list" where
  "path_state segments buf [] = end_segment False segments buf"
| "path_state segments buf (c # cs) =
     (if is_slash c then path_state (end_segment True segments buf) [] cs
      else path_state segments (buf @ utf8_percent_encode c) cs)"

text \<open>The path start state skips one slash.\<close>

definition path_start :: "string \<Rightarrow> string list" where
  "path_start s =
     (case s of
        [] \<Rightarrow> path_state [] [] []
      | c # cs \<Rightarrow> if is_slash c then path_state [] [] cs else path_state [] [] s)"

definition remove_tab_newline :: "string \<Rightarrow> string" where
  "remove_tab_newline = filter (\<lambda>c. c \<noteq> CHR 0x09 \<and> c \<noteq> CHR 0x0A \<and> c \<noteq> CHR 0x0D)"

definition serialize_path :: "string list \<Rightarrow> string" where
  "serialize_path segments = concat (map (\<lambda>seg. CHR ''/'' # seg) segments)"

definition plain_set_pathname :: "string \<Rightarrow> plain_url \<Rightarrow> plain_url" where
  "plain_set_pathname p u = u\<lparr>pathname := serialize_path (path_start (remove_tab_newline p))\<rparr>"

text \<open>
  \<^verbatim>\<open>searchParams.set\<close>: the first parameter of that name gets the value and the others
  of that name are removed; without one, the parameter is appended.
\<close>

fun params_set :: "string \<Rightarrow> string \<Rightarrow> (string \<times> string) list \<Rightarrow> (string \<times> string) list" where
  "params_set k v [] = [(k, v)]"
| "params_set k v ((k', v') # ps) =
     (if k' = k then (k, v) # filter (\<lambda>kv. fst kv \<noteq> k) ps else (k', v') # params_set k v ps)"

definition plain_searchParams_set :: "string \<Rightarrow> string \<Rightarrow> plain_url \<Rightarrow> plain_url" where
  "plain_searchParams_set k v u = u\<lparr>searchParams := params_set k v (searchParams u)\<rparr>"

fun join_amp :: "string list \<Rightarrow> string" where
  "join_amp [] = []"
| "join_amp [x] = x"
| "join_amp (x # y # ys) = x @ CHR ''&'' # join_amp (y # ys)"

definition plain_href :: "plain_url \<Rightarrow> string" where
  "plain_href u =
     scheme u @ ''://'' @ host u @ pathname u
     @ (if searchParams u = [] then []
        else CHR ''?'' # join_amp (map (\<lambda>kv. fst kv @ CHR ''='' # snd kv) (searchParams u)))"

definition plain_env :: "(request \<Rightarrow> error + response) \<Rightarrow> error + string \<Rightarrow> plain_url env" where
  "plain_env f secret =
     \<lparr>URL_new = plain_URL_new, URL_pathname = pathname, URL_set_pathname = plain_set_pathname,
      URL_searchParams_set = plain_searchParams_set, URL_href = plain_href,
      fetch = f, getAdminSecret = secret\<rparr>"

section \<open>Examples\<close>

text \<open>
  The request that \<^verbatim>\<open>createNewRemoteArchive\<close> builds, given the serialised URL and the
  secret.
\<close>

definition create_request :: "string \<Rightarrow> string \<Rightarrow> CreateArchiveRemotePayload \<Rightarrow> request" where
  "create_request href secret p =
     \<lparr>req_method = ''POST'', req_url = href,
      req_headers = [(''Content-Type'', ''application/json''),
                     (''Authentication'', ''Bearer '' @ secret)],
      req_body = Some (JSON_stringify (JObject [(''slug'', JString (slug p)),
                   (''path'', JString (path p)), (''target'', JString (target p))]))\<rparr>"

text \<open>
  Thirty-one archives; a store with an archive open; an environment on plain URLs whose
  server answers every request with status 500 and a given text; a note; a video whose
  elements are lists of recorded values.
\<close>

definition example_archives :: "Archive list" where
  "example_archives = map (\<lambda>i. \<lparr>server = ''https://h'', slug = replicate i CHR ''a''\<rparr>) [0..<31]"

definition example_open :: yark_store where
  "example_open = \<lparr>openedArchive = Some \<lparr>server = ''https://h'', slug = ''abc''\<rparr>, recents = []\<rparr>"

definition example_env :: "string \<Rightarrow> plain_url env" where
  "example_env txt = plain_env (\<lambda>req. Inr \<lparr>resp_status = 500, resp_text = txt\<rparr>) (Inr ''secret'')"

definition example_note :: "int Note" where
  "example_note = \<lparr>note_id = ''n1'', timestamp = 12, note_title = ''intro'', note_body = ''first''\<rparr>"

definition example_video :: "(nat list, int, unit) VideoDetailed" where
  "example_video =
     \<lparr>uploaded = ''2021-03-04T05:06:07'', width = 1920, height = 1080,
      title = [1], description = [1], views = [10, 20], likes = [1, 2], thumbnail = [1],
      deleted = [0, 1], video_notes = [], comments = ()\<rparr>"

section \<open>Properties of the session store\<close>

lemma calls_snoc:
  "setCurrentArchive_calls (xs @ [x]) a = setCurrentArchive x (setCurrentArchive_calls xs a)"
  by (simp add: setCurrentArchive_calls_def)

lemma calls_nil: "setCurrentArchive_calls [] a = a"
  by (simp add: setCurrentArchive_calls_def)

lemma store_after_call:
  "yarkStore (setCurrentArchive x a) = update_store x (yarkStore a)"
  by (simp add: setCurrentArchive_def)

lemma opened_after_update: "openedArchive (update_store x v) = Some x"
  by (simp add: update_store_def Let_def)

lemma recents_after_update:
  "recents (update_store x v) =
     (if length (recents v) \<ge> 30 then tl (recents v) else recents v) @ [x]"
  by (simp add: update_store_def Let_def RECENTS_MAX_def)

text \<open>The recents after any sequence of calls are the last 30 archives passed, in order.\<close>

lemma recents_closed_form:
  "recents (yarkStore (setCurrentArchive_calls xs (initial_app loc))) = drop (length xs - 30) xs"
proof (induction xs rule: rev_induct)
  case Nil
  show ?case by (simp add: calls_nil initial_app_def initial_store_def)
next
  case (snoc x xs)
  show ?case
  proof (cases "length xs \<ge> 30")
    case True
    then have "Suc (length xs) - 30 = Suc (length xs - 30)" by arith
    with True snoc show ?thesis
      by (simp add: calls_snoc store_after_call recents_after_update drop_Suc tl_drop)
  next
    case False
    with snoc show ?thesis
      by (simp add: calls_snoc store_after_call recents_after_update)
  qed
qed

text \<open>
  C1. For every sequence of \<^verbatim>\<open>setCurrentArchive\<close> calls from the initial store and
  every \<open>n\<close> below its length: after call \<open>n + 1\<close> the open archive is the archive passed
  to that call; the recents hold at most 30 entries before and after the call; when
  the call finds 30 entries, the new recents are the old ones without their first
  (oldest) entry, followed by the new archive; when it finds fewer, the archive is
  appended and nothing is removed.
\<close>

theorem setCurrentArchive_sequence:
  fixes xs :: "Archive list" and loc :: string
  defines "store_after \<equiv> (\<lambda>k. yarkStore (setCurrentArchive_calls (take k xs) (initial_app loc)))"
  assumes "n < length xs"
  shows "openedArchive (store_after (Suc n)) = Some (xs ! n)
    \<and> length (recents (store_after (Suc n))) \<le> 30
    \<and> length (recents (store_after n)) \<le> 30
    \<and> (length (recents (store_after n)) = 30 \<longrightarrow>
         recents (store_after (Suc n)) = tl (recents (store_after n)) @ [xs ! n])
    \<and> (length (recents (store_after n)) < 30 \<longrightarrow>
         recents (store_after (Suc n)) = recents (store_after n) @ [xs ! n])"
proof -
  have step: "store_after (Suc n) = update_store (xs ! n) (store_after n)"
    using assms(2)
    by (simp add: store_after_def take_Suc_conv_app_nth calls_snoc store_after_call)
  have "openedArchive (store_after (Suc n)) = Some (xs ! n)"
    by (simp add: step opened_after_update)
  moreover have "length (recents (store_after k)) \<le> 30" for k
    by (simp add: store_after_def recents_closed_form)
  moreover have "length (recents (store_after n)) = 30 \<longrightarrow>
      recents (store_after (Suc n)) = tl (recents (store_after n)) @ [xs ! n]"
    by (simp add: step recents_after_update)
  moreover have "length (recents (store_after n)) < 30 \<longrightarrow>
      recents (store_after (Suc n)) = recents (store_after n) @ [xs ! n]"
    by (simp add: step recents_after_update)
  ultimately show ?thesis by blast
qed

text \<open>
  C1 at the thirty-first of thirty-one calls: the call finds the recents at 30 entries,
  drops the first and appends the archive.
\<close>

theorem setCurrentArchive_sequence_witness:
  "30 < length example_archives
   \<and> length (recents (yarkStore (setCurrentArchive_calls (take 30 example_archives) (initial_app ''/'')))) = 30
   \<and> openedArchive (yarkStore (setCurrentArchive_calls (take 31 example_archives) (initial_app ''/'')))
       = Some (example_archives ! 30)
   \<and> recents (yarkStore (setCurrentArchive_calls (take 31 example_archives) (initial_app ''/'')))
       = tl (recents (yarkStore (setCurrentArchive_calls (take 30 example_archives) (initial_app ''/''))))
         @ [example_archives ! 30]
   \<and> length (recents (yarkStore (setCurrentArchive_calls (take 31 example_archives) (initial_app ''/'')))) \<le> 30"
proof -
  have len: "30 < length example_archives"
    by (simp add: example_archives_def)
  have cap: "length (recents (yarkStore (setCurrentArchive_calls (take 30 example_archives) (initial_app ''/'')))) = 30"
    by (simp add: recents_closed_form example_archives_def)
  from setCurrentArchive_sequence [OF len, of "''/''"] cap len show ?thesis
    by simp
qed

text \<open>
  C4. \<^verbatim>\<open>archiveVideoKindToString\<close> maps \<open>Videos\<close> to \<open>videos\<close>, \<open>Livestreams\<close> to
  \<open>livestreams\<close> and \<open>Shorts\<close> to \<open>shorts\<close>; every enumerator has exactly one string, and
  distinct enumerators have distinct strings.
\<close>

theorem archiveVideoKindToString_total_injective:
  "archiveVideoKindToString Videos = ''videos''
   \<and> archiveVideoKindToString Livestreams = ''livestreams''
   \<and> archiveVideoKindToString Shorts = ''shorts''
   \<and> (\<forall>k. \<exists>!s. archiveVideoKindToString k = s)
   \<and> inj archiveVideoKindToString"
proof -
  have "inj archiveVideoKindToString"
  proof (rule injI)
    fix a b
    assume "archiveVideoKindToString a = archiveVideoKindToString b"
    then show "a = b" by (cases a; cases b) simp_all
  qed
  then show ?thesis by simp
qed

section \<open>The parser consumes its input\<close>

lemma strip_prefix_length: "strip_prefix p s = Some r \<Longrightarrow> length s = length p + length r"
  by (induction p s rule: strip_prefix.induct) (auto split: if_splits)

lemma parse_int_shorter: "parse_int s = Some (ip, r) \<Longrightarrow> length r < length s"
  using length_dropWhile_le [of is_digit "tl s"]
  by (cases s) (auto simp: parse_int_def split: if_splits)

lemma parse_frac_shorter: "parse_frac s = Some (fp, r) \<Longrightarrow> length r \<le> length s"
  using length_dropWhile_le [of is_digit "tl s"]
  by (cases s) (auto simp: parse_frac_def split: if_splits)

lemma parse_exp_shorter: "parse_exp s = Some (ep, r) \<Longrightarrow> length r \<le> length s"
proof (cases s)
  case Nil
  assume "parse_exp s = Some (ep, r)"
  with Nil show ?thesis by (simp add: parse_exp_def)
next
  case (Cons c t)
  assume a: "parse_exp s = Some (ep, r)"
  obtain sg r1 where ps: "parse_sign t = (sg, r1)" by (cases "parse_sign t")
  then have "length r1 \<le> length t"
    by (cases t) (auto simp: parse_sign_def split: if_splits)
  moreover have "length (dropWhile is_digit r1) \<le> length r1"
    by (rule length_dropWhile_le)
  ultimately show ?thesis
    using a Cons ps by (auto simp: parse_exp_def split: if_splits)
qed

lemma parse_number_shorter: "parse_number s = Inr (l, r) \<Longrightarrow> length r < length s"
proof -
  assume a: "parse_number s = Inr (l, r)"
  obtain sg s1 where sg: "(case s of [] \<Rightarrow> ([], s) | c # r \<Rightarrow> if c = CHR ''-'' then ([c], r) else ([], s)) = (sg, s1)"
    by (cases "(case s of [] \<Rightarrow> ([], s) | c # r \<Rightarrow> if c = CHR ''-'' then ([c], r) else ([], s))")
  then have l1: "length s1 \<le> length s"
    by (cases s) (auto split: if_splits)
  from a sg obtain ip s2 fp s3 ep where
    "parse_int s1 = Some (ip, s2)" "parse_frac s2 = Some (fp, s3)" "parse_exp s3 = Some (ep, r)"
    by (auto simp: parse_number_def split: option.splits)
  then have "length s2 < length s1" "length s3 \<le> length s2" "length r \<le> length s3"
    by (auto dest: parse_int_shorter parse_frac_shorter parse_exp_shorter)
  with l1 show ?thesis by simp
qed

lemma skip_ws_le: "length (skip_ws s) \<le> length s"
  by (simp add: skip_ws_def length_dropWhile_le)

text \<open>What a successful parse has gone through, read off the equations.\<close>

lemma parse_value_cases:
  assumes "parse_value s = Inr (v, r)"
  obtains c t where "skip_ws s = c # t"
    and "(c = CHR ''['' \<and> (\<exists>c' r'. skip_ws t = c' # r'
            \<and> (if c' = CHR '']'' then r = r' else parse_elements [] t = Inr (v, r))))
       \<or> (c \<noteq> CHR ''['' \<and> c = CHR ''{'' \<and> (\<exists>c' r'. skip_ws t = c' # r'
            \<and> (if c' = CHR ''}'' then r = r' else parse_members [] t = Inr (v, r))))
       \<or> (c = dquote \<and> (\<exists>x. parse_chars t = Inr (x, r)))
       \<or> strip_prefix ''true'' (c # t) = Some r
       \<or> strip_prefix ''false'' (c # t) = Some r
       \<or> strip_prefix ''null'' (c # t) = Some r
       \<or> (\<exists>l. parse_number (c # t) = Inr (l, r))"
  using assms [unfolded parse_value.simps [of s]]
  by (auto split: list.splits sum.splits option.splits if_splits simp del: strip_prefix.simps)

lemma parse_elements_cases:
  assumes "parse_elements acc s = Inr (v, r)"
  obtains v1 r1 c r' where "parse_value s = Inr (v1, r1)" and "skip_ws r1 = c # r'"
    and "(c = CHR '','' \<and> length r' < length s \<and> parse_elements (acc @ [v1]) r' = Inr (v, r))
       \<or> (c \<noteq> CHR '','' \<and> r = r')"
  using assms [unfolded parse_elements.simps [of acc s]]
  by (auto split: list.splits sum.splits if_splits)

lemma parse_members_cases:
  assumes "parse_members kvs s = Inr (v, r)"
  obtains t k r1 r2 v1 r3 c3 r4 where "skip_ws s = dquote # t" and "parse_chars t = Inr (k, r1)"
    and "skip_ws r1 = CHR '':'' # r2" and "parse_value r2 = Inr (v1, r3)" and "skip_ws r3 = c3 # r4"
    and "(c3 = CHR '','' \<and> length r4 < length s \<and> parse_members (obj_put kvs k v1) r4 = Inr (v, r))
       \<or> (c3 \<noteq> CHR '','' \<and> r = r4)"
  using assms [unfolded parse_members.simps [of kvs s]]
  by (auto split: list.splits sum.splits if_splits)

text \<open>Every value, element list and member list that is parsed leaves a shorter rest.\<close>

lemma parse_shorter:
  "\<forall>v r. parse_value s = Inr (v, r) \<longrightarrow> length r < length s"
  "\<forall>v r. parse_elements acc s = Inr (v, r) \<longrightarrow> length r < length s"
  "\<forall>v r. parse_members kvs s = Inr (v, r) \<longrightarrow> length r < length s"
proof (induction s and acc s and kvs s rule: parse_value_parse_elements_parse_members.induct)
  case (1 s)
  show ?case
  proof (intro allI impI)
    fix v r
    assume "parse_value s = Inr (v, r)"
    then obtain c t where sk: "skip_ws s = c # t"
      and alt: "(c = CHR ''['' \<and> (\<exists>c' r'. skip_ws t = c' # r'
            \<and> (if c' = CHR '']'' then r = r' else parse_elements [] t = Inr (v, r))))
       \<or> (c \<noteq> CHR ''['' \<and> c = CHR ''{'' \<and> (\<exists>c' r'. skip_ws t = c' # r'
            \<and> (if c' = CHR ''}'' then r = r' else parse_members [] t = Inr (v, r))))
       \<or> (c = dquote \<and> (\<exists>x. parse_chars t = Inr (x, r)))
       \<or> strip_prefix ''true'' (c # t) = Some r
       \<or> strip_prefix ''false'' (c # t) = Some r
       \<or> strip_prefix ''null'' (c # t) = Some r
       \<or> (\<exists>l. parse_number (c # t) = Inr (l, r))"
      by (rule parse_value_cases)
    have lt: "length t < length s"
      using sk by (rule skip_ws_shorter)
    have sl: "length (c # t) \<le> length s"
      using skip_ws_le [of s] sk by simp
    from alt show "length r < length s"
    proof (elim disjE conjE exE)
      fix c' r'
      assume arr: "c = CHR ''[''" and sk2: "skip_ws t = c' # r'"
        and res: "if c' = CHR '']'' then r = r' else parse_elements [] t = Inr (v, r)"
      show ?thesis
      proof (cases "c' = CHR '']''")
        case True
        with res skip_ws_shorter [OF sk2] lt show ?thesis by simp
      next
        case False
        with res "1.IH"(1) [OF sk arr sk2 False] lt show ?thesis by force
      qed
    next
      fix c' r'
      assume narr: "c \<noteq> CHR ''[''" and obj: "c = CHR ''{''" and sk2: "skip_ws t = c' # r'"
        and res: "if c' = CHR ''}'' then r = r' else parse_members [] t = Inr (v, r)"
      show ?thesis
      proof (cases "c' = CHR ''}''")
        case True
        with res skip_ws_shorter [OF sk2] lt show ?thesis by simp
      next
        case False
        with res "1.IH"(2) [OF sk narr obj sk2 False] lt show ?thesis by force
      qed
    next
      fix x
      assume "parse_chars t = Inr (x, r)"
      from parse_chars_shorter [OF this] lt show ?thesis by simp
    next
      assume "strip_prefix ''true'' (c # t) = Some r"
      from strip_prefix_length [OF this] sl show ?thesis by simp
    next
      assume "strip_prefix ''false'' (c # t) = Some r"
      from strip_prefix_length [OF this] sl show ?thesis by simp
    next
      assume "strip_prefix ''null'' (c # t) = Some r"
      from strip_prefix_length [OF this] sl show ?thesis by simp
    next
      fix l
      assume "parse_number (c # t) = Inr (l, r)"
      from parse_number_shorter [OF this] sl show ?thesis by simp
    qed
  qed
next
  case (2 acc s)
  show ?case
  proof (intro allI impI)
    fix v r
    assume "parse_elements acc s = Inr (v, r)"
    then obtain v1 r1 c r' where pv: "parse_value s = Inr (v1, r1)" and sk: "skip_ws r1 = c # r'"
      and alt: "(c = CHR '','' \<and> length r' < length s \<and> parse_elements (acc @ [v1]) r' = Inr (v, r))
         \<or> (c \<noteq> CHR '','' \<and> r = r')"
      by (rule parse_elements_cases)
    from pv "2.IH"(1) have l1: "length r1 < length s" by simp
    have l2: "length r' < length r1" using sk by (rule skip_ws_shorter)
    from alt show "length r < length s"
    proof (elim disjE conjE)
      assume comma: "c = CHR '',''" and g: "length r' < length s"
        and rest: "parse_elements (acc @ [v1]) r' = Inr (v, r)"
      have "length r < length r'"
        using "2.IH"(2) [OF pv refl sk comma g] rest by simp
      with g show ?thesis by simp
    next
      assume "r = r'"
      with l1 l2 show ?thesis by simp
    qed
  qed
next
  case (3 kvs s)
  show ?case
  proof (intro allI impI)
    fix v r
    assume "parse_members kvs s = Inr (v, r)"
    then obtain t k r1 r2 v1 r3 c3 r4 where sk: "skip_ws s = dquote # t"
      and pc: "parse_chars t = Inr (k, r1)" and sk1: "skip_ws r1 = CHR '':'' # r2"
      and pv: "parse_value r2 = Inr (v1, r3)" and sk3: "skip_ws r3 = c3 # r4"
      and alt: "(c3 = CHR '','' \<and> length r4 < length s \<and> parse_members (obj_put kvs k v1) r4 = Inr (v, r))
         \<or> (c3 \<noteq> CHR '','' \<and> r = r4)"
      by (rule parse_members_cases)
    have l0: "length t < length s" using sk by (rule skip_ws_shorter)
    have l1: "length r1 < length t" using pc by (rule parse_chars_shorter)
    have l2: "length r2 < length r1" using sk1 by (rule skip_ws_shorter)
    have l3: "length r3 < length r2"
      using "3.IH"(1) [OF sk refl pc refl sk1 refl] pv by simp
    have l4: "length r4 < length r3" using sk3 by (rule skip_ws_shorter)
    from alt show "length r < length s"
    proof (elim disjE conjE)
      assume comma: "c3 = CHR '',''" and g: "length r4 < length s"
        and rest: "parse_members (obj_put kvs k v1) r4 = Inr (v, r)"
      have "length r < length r4"
        using "3.IH"(2) [OF sk refl pc refl sk1 refl pv refl sk3 comma g] rest
        by simp
      with g show ?thesis by simp
    next
      assume "r = r4"
      with l0 l1 l2 l3 l4 show ?thesis by simp
    qed
  qed
qed

text \<open>So the tests on the length in the parser always succeed.\<close>

lemma parse_elements_unguarded:
  "parse_elements acc s =
     (case parse_value s of
        Inl e \<Rightarrow> Inl e
      | Inr (v, r) \<Rightarrow>
          (case skip_ws r of
             [] \<Rightarrow> Inl SyntaxError
           | c # r' \<Rightarrow>
               if c = CHR '','' then parse_elements (acc @ [v]) r'
               else if c = CHR '']'' then Inr (JArray (acc @ [v]), r')
               else Inl SyntaxError))"
proof -
  have "length r' < length s" if "parse_value s = Inr (v, r)" and "skip_ws r = c # r'" for v r c r'
    using parse_shorter(1) [of s] skip_ws_shorter [OF that(2)] that(1) by force
  then show ?thesis
    by (subst parse_elements.simps) (auto split: sum.splits list.splits)
qed

lemma parse_members_unguarded:
  "parse_members acc s =
     (case skip_ws s of
        [] \<Rightarrow> Inl SyntaxError
      | c # r \<Rightarrow>
          if c = dquote then
            (case parse_chars r of
               Inl e \<Rightarrow> Inl e
             | Inr (k, r1) \<Rightarrow>
                 (case skip_ws r1 of
                    [] \<Rightarrow> Inl SyntaxError
                  | c1 # r2 \<Rightarrow>
                      if c1 = CHR '':'' then
                        (case parse_value r2 of
                           Inl e \<Rightarrow> Inl e
                         | Inr (v, r3) \<Rightarrow>
                             (case skip_ws r3 of
                                [] \<Rightarrow> Inl SyntaxError
                              | c3 # r4 \<Rightarrow>
                                  if c3 = CHR '','' then parse_members (obj_put acc k v) r4
                                  else if c3 = CHR ''}'' then Inr (JObject (obj_put acc k v), r4)
                                  else Inl SyntaxError))
                      else Inl SyntaxError))
          else Inl SyntaxError)"
proof -
  have "length r4 < length s"
    if "skip_ws s = c # r" "parse_chars r = Inr (k, r1)" "skip_ws r1 = c1 # r2"
      "parse_value r2 = Inr (v, r3)" "skip_ws r3 = c3 # r4" for c r k r1 c1 r2 v r3 c3 r4
    using skip_ws_shorter [OF that(1)] parse_chars_shorter [OF that(2)] skip_ws_shorter [OF that(3)]
      parse_shorter(1) [of r2] that(4) skip_ws_shorter [OF that(5)]
    by force
  then show ?thesis
    by (subst parse_members.simps) (auto split: sum.splits list.splits)
qed

section \<open>JSON.parse inverts JSON.stringify on arrays of archives\<close>

lemma hex4_escape: "\<forall>n \<in> set [0..<32]. hex4 CHR ''0'' CHR ''0'' (hex_digits ! (n div 16)) (hex_digits ! (n mod 16)) = Some n"
  by code_simp

lemma parse_chars_unicode_escape:
  assumes "n < 32"
  shows "parse_chars (unicode_escape n @ r) = with_char (char_of n) (parse_chars r)"
proof -
  have "hex4 CHR ''0'' CHR ''0'' (hex_digits ! (n div 16)) (hex_digits ! (n mod 16)) = Some n"
    using hex4_escape assms by simp
  then show ?thesis
    using assms by (simp add: unicode_escape_def backslash_def dquote_def)
qed

lemma parse_chars_quote_char:
  "parse_chars (quote_char c @ r) = with_char c (parse_chars r)"
proof (cases "of_char c < (0x20 :: nat)")
  case False
  then show ?thesis
    by (auto simp: quote_char_def backslash_def dquote_def unescape_def)
next
  case True
  then show ?thesis
    by (auto simp: quote_char_def backslash_def dquote_def unescape_def parse_chars_unicode_escape)
qed

lemma parse_chars_quoted:
  "parse_chars (concat (map quote_char s) @ dquote # r) = Inr (s, r)"
  by (induction s) (simp_all add: parse_chars_quote_char with_char_def)

lemma skip_ws_non_ws: "\<not> is_ws c \<Longrightarrow> skip_ws (c # r) = c # r"
  by (simp add: skip_ws_def)

lemma not_ws_punct:
  "\<not> is_ws dquote" "\<not> is_ws CHR '':''" "\<not> is_ws CHR '',''" "\<not> is_ws CHR ''}''"
  "\<not> is_ws CHR '']''" "\<not> is_ws CHR ''{''" "\<not> is_ws CHR ''[''"
  by (simp_all add: is_ws_def dquote_def)

lemma dquote_distinct:
  "dquote \<noteq> CHR ''[''" "dquote \<noteq> CHR ''{''" "dquote \<noteq> CHR ''}''" "dquote \<noteq> CHR '']''"
  by (simp_all add: dquote_def)

lemma QuoteJSONString_append:
  "QuoteJSONString s @ r = dquote # (concat (map quote_char s) @ dquote # r)"
  by (simp add: QuoteJSONString_def)

lemma parse_value_string: "parse_value (QuoteJSONString s @ r) = Inr (JString s, r)"
  by (subst parse_value.simps)
     (simp add: QuoteJSONString_append skip_ws_non_ws not_ws_punct parse_chars_quoted dquote_distinct)

lemma parse_members_step:
  assumes "parse_value (t @ c # r) = Inr (v, c # r)" and "\<not> is_ws c"
  shows "parse_members acc (QuoteJSONString k @ CHR '':'' # t @ c # r) =
     (if c = CHR '','' then parse_members (obj_put acc k v) r
      else if c = CHR ''}'' then Inr (JObject (obj_put acc k v), r)
      else Inl SyntaxError)"
  using assms
  by (subst parse_members.simps)
     (simp add: QuoteJSONString_append skip_ws_non_ws not_ws_punct parse_chars_quoted)

lemma parse_elements_step:
  assumes "parse_value (t @ c # r) = Inr (v, c # r)" and "\<not> is_ws c"
  shows "parse_elements acc (t @ c # r) =
     (if c = CHR '','' then parse_elements (acc @ [v]) r
      else if c = CHR '']'' then Inr (JArray (acc @ [v]), r)
      else Inl SyntaxError)"
  using assms
  by (subst parse_elements.simps) (simp add: skip_ws_non_ws)

lemma stringify_recentArchive:
  "JSON_stringify (recentArchive_json a) @ r =
     CHR ''{'' # QuoteJSONString ''server'' @ CHR '':'' # QuoteJSONString (server a)
       @ CHR '','' # QuoteJSONString ''slug'' @ CHR '':'' # QuoteJSONString (slug a) @ CHR ''}'' # r"
  by (simp add: recentArchive_json_def)

lemma parse_value_recentArchive:
  "parse_value (JSON_stringify (recentArchive_json a) @ r) = Inr (recentArchive_json a, r)"
proof -
  have str: "parse_value (QuoteJSONString s @ c # x) = Inr (JString s, c # x)" for s c x
    by (rule parse_value_string)
  have m2: "parse_members [(''server'', JString (server a))]
              (QuoteJSONString ''slug'' @ CHR '':'' # QuoteJSONString (slug a) @ CHR ''}'' # r)
            = Inr (recentArchive_json a, r)"
    by (subst parse_members_step [OF str]) (simp_all add: not_ws_punct recentArchive_json_def)
  have m1: "parse_members []
              (QuoteJSONString ''server'' @ CHR '':'' # QuoteJSONString (server a)
               @ CHR '','' # QuoteJSONString ''slug'' @ CHR '':'' # QuoteJSONString (slug a) @ CHR ''}'' # r)
            = Inr (recentArchive_json a, r)"
    by (subst parse_members_step [OF str]) (simp_all add: not_ws_punct m2)
  have q: "skip_ws (QuoteJSONString k @ x) = dquote # tl (QuoteJSONString k @ x)" for k x
    by (simp add: QuoteJSONString_append skip_ws_non_ws not_ws_punct)
  show ?thesis
    unfolding stringify_recentArchive
    by (subst parse_value.simps) (simp add: skip_ws_non_ws not_ws_punct q dquote_distinct m1)
qed

lemma parse_elements_recentArchives:
  "parse_elements acc
     (join_comma (map (JSON_stringify \<circ> recentArchive_json) (x # xs)) @ CHR '']'' # r)
   = Inr (JArray (acc @ map recentArchive_json (x # xs)), r)"
proof (induction xs arbitrary: acc x)
  case Nil
  have "parse_elements acc (JSON_stringify (recentArchive_json x) @ CHR '']'' # r)
      = Inr (JArray (acc @ [recentArchive_json x]), r)"
    by (subst parse_elements_step [OF parse_value_recentArchive]) (simp_all add: not_ws_punct)
  then show ?case by simp
next
  case (Cons y ys)
  have "parse_elements acc
          (JSON_stringify (recentArchive_json x) @ CHR '','' #
             (join_comma (map (JSON_stringify \<circ> recentArchive_json) (y # ys)) @ CHR '']'' # r))
      = parse_elements (acc @ [recentArchive_json x])
          (join_comma (map (JSON_stringify \<circ> recentArchive_json) (y # ys)) @ CHR '']'' # r)"
    by (subst parse_elements_step [OF parse_value_recentArchive]) (simp_all add: not_ws_punct)
  also have "\<dots> = Inr (JArray ((acc @ [recentArchive_json x]) @ map recentArchive_json (y # ys)), r)"
    by (rule Cons.IH)
  finally show ?case by (simp add: comp_def)
qed

lemma skip_ws_stringify_recentArchive:
  "skip_ws (JSON_stringify (recentArchive_json x) @ r)
     = CHR ''{'' # tl (JSON_stringify (recentArchive_json x) @ r)"
  by (simp add: recentArchive_json_def skip_ws_non_ws not_ws_punct)

lemma parse_value_recentArchives:
  "parse_value (JSON_stringify (recentArchives_json xs) @ r) = Inr (recentArchives_json xs, r)"
proof (cases xs)
  case Nil
  then show ?thesis
    by (subst parse_value.simps) (simp add: recentArchives_json_def skip_ws_non_ws not_ws_punct)
next
  case (Cons y ys)
  have first: "skip_ws (join_comma (map (JSON_stringify \<circ> recentArchive_json) (y # ys)) @ CHR '']'' # r)
      = CHR ''{'' # tl (join_comma (map (JSON_stringify \<circ> recentArchive_json) (y # ys)) @ CHR '']'' # r)"
    using skip_ws_stringify_recentArchive by (cases ys) simp_all
  show ?thesis
    unfolding Cons recentArchives_json_def
    by (subst parse_value.simps)
       (simp add: skip_ws_non_ws not_ws_punct first parse_elements_recentArchives
          del: list.map join_comma.simps)
qed

lemma JSON_parse_encode_recentArchives:
  "JSON_parse (encode_recentArchives xs) = Inr (recentArchives_json xs)"
  using parse_value_recentArchives [of xs "[]"]
  by (simp add: JSON_parse_def encode_recentArchives_def skip_ws_def)


text \<open>
  C8. With no archive state, \<^verbatim>\<open>load\<close> yields the empty array when the cookie
  \<^verbatim>\<open>recentArchives\<close> is absent, and for every list of recent archives it yields, from the
  cookie that holds the JSON encoding of the list, the array of these archives; equal
  arrays come from equal lists only. (With an archive state \<^verbatim>\<open>load\<close> redirects and reads
  no cookie.)
\<close>

theorem load_recentArchives_roundtrip:
  "load None (cookies(''recentArchives'' := None)) = Inr (JArray [])
   \<and> load None (cookies(''recentArchives'' := Some (encode_recentArchives xs)))
       = Inr (recentArchives_json xs)
   \<and> recentArchives_json [] = JArray []
   \<and> inj recentArchives_json
   \<and> load (Some archiveState) cookies = Inl (Redirect 307 ''/archive'')"
proof -
  have "inj recentArchive_json"
    by (rule injI) (simp add: recentArchive_json_def)
  then have "inj recentArchives_json"
    by (simp add: inj_def recentArchives_json_def inj_map_eq_map)
  then show ?thesis
    by (simp add: load_def JSON_parse_encode_recentArchives recentArchives_json_def)
qed

section \<open>The URL class for plain URLs keeps the text of a URL\<close>

text \<open>
  A plain URL is serialised as it was written, but for the path \<^verbatim>\<open>/\<close> of a URL without
  a path.
\<close>

lemma strip_prefix_append: "strip_prefix p s = Some r \<Longrightarrow> s = p @ r"
  by (induction p s rule: strip_prefix.induct) (auto split: if_splits)

lemma plain_after_scheme_href:
  assumes "plain_after_scheme sch r = Inr u"
  shows "plain_href u = sch @ ''://'' @ r @ (if CHR ''/'' \<in> set r then [] else ''/'')"
proof -
  define h where "h = takeWhile (\<lambda>c. c \<noteq> CHR ''/'') r"
  define p where "p = dropWhile (\<lambda>c. c \<noteq> CHR ''/'') r"
  have u: "u = \<lparr>scheme = sch, host = h, pathname = (if p = [] then ''/'' else p), searchParams = []\<rparr>"
    using assms by (auto simp: plain_after_scheme_def Let_def h_def p_def split: if_splits)
  have r: "r = h @ p"
    by (simp add: h_def p_def)
  have empty: "(p = []) = (CHR ''/'' \<notin> set r)"
    by (auto simp: p_def dropWhile_eq_Nil_conv)
  have "plain_href u = sch @ ''://'' @ h @ (if p = [] then ''/'' else p)"
    by (simp add: u plain_href_def)
  also have "\<dots> = sch @ ''://'' @ (h @ p) @ (if p = [] then ''/'' else [])"
    by simp
  finally show ?thesis
    unfolding r [symmetric] empty by simp
qed

lemma plain_URL_new_href:
  assumes "plain_URL_new s = Inr u"
  shows "plain_href u = s \<or> plain_href u = s @ ''/''"
proof (cases "strip_prefix ''https://'' s")
  case (Some r)
  with assms have "plain_after_scheme ''https'' r = Inr u"
    by (simp add: plain_URL_new_def)
  from plain_after_scheme_href [OF this] strip_prefix_append [OF Some] show ?thesis
    by (simp split: if_splits)
next
  case None
  with assms obtain r where r: "strip_prefix ''http://'' s = Some r"
    and "plain_after_scheme ''http'' r = Inr u"
    by (auto simp: plain_URL_new_def split: option.splits)
  from plain_after_scheme_href [OF this(2)] strip_prefix_append [OF r] show ?thesis
    by (simp split: if_splits)
qed



subsection \<open>Paths that the assignment to the path keeps\<close>


















section \<open>Properties of the REST client\<close>

lemma getOpenedArchiveApiLink_None:
  "openedArchive st = None \<Longrightarrow>
   getOpenedArchiveApiLink st = Inl (Error ''Archive was expected to be open but it wasn't'')"
  by (simp add: getOpenedArchiveApiLink_def getOpenedArchiveAlways_def)

lemma getOpenedArchiveApiLink_Some:
  "openedArchive st = Some a \<Longrightarrow> getOpenedArchiveApiLink st = Inr (getArchiveApiLink a)"
  by (simp add: getOpenedArchiveApiLink_def getOpenedArchiveAlways_def)

text \<open>The plain URLs of the examples.\<close>

lemma plain_URL_new_slash: "plain_URL_new ''https://h//archive/abc''
   = Inr \<lparr>scheme = ''https'', host = ''h'', pathname = ''//archive/abc'', searchParams = []\<rparr>"
  by code_simp

lemma plain_URL_new_noslash: "plain_URL_new ''https://h/archive/abc''
   = Inr \<lparr>scheme = ''https'', host = ''h'', pathname = ''/archive/abc'', searchParams = []\<rparr>"
  by code_simp

lemma plain_URL_new_origin: "plain_URL_new ''https://h''
   = Inr \<lparr>scheme = ''https'', host = ''h'', pathname = ''/'', searchParams = []\<rparr>"
  by code_simp

lemma plain_URL_new_origin_slash: "plain_URL_new ''https://h/''
   = Inr \<lparr>scheme = ''https'', host = ''h'', pathname = ''/'', searchParams = []\<rparr>"
  by code_simp

lemma plain_URL_new_api: "plain_URL_new ''https://h/api''
   = Inr \<lparr>scheme = ''https'', host = ''h'', pathname = ''/api'', searchParams = []\<rparr>"
  by code_simp

lemma plain_URL_new_api_link: "plain_URL_new ''https://h/api/archive/abc''
   = Inr \<lparr>scheme = ''https'', host = ''h'', pathname = ''/api/archive/abc'', searchParams = []\<rparr>"
  by code_simp

text \<open>The assignments to the path in the examples.\<close>

lemma set_pathname_archive: "serialize_path (path_start (remove_tab_newline ''/archive'')) = ''/archive''"
  by code_simp






text \<open>
  C2. \<^verbatim>\<open>getOpenedArchiveAlways\<close> fails if and only if the store has no open archive, and
  returns the open archive otherwise. With no archive open, \<^verbatim>\<open>fetchVideosBrief\<close>,
  \<^verbatim>\<open>fetchVideoDetails\<close> and \<^verbatim>\<open>deleteNote\<close> issue no request and fail with that error, and
  \<^verbatim>\<open>getVideoThumbnailApiLink\<close> and \<^verbatim>\<open>getVideoFileApiLink\<close> fail with it.
\<close>

theorem getOpenedArchiveAlways_fails_iff_not_open:
  fixes E :: "'u env" and nt :: "'n Note"
  defines "err \<equiv> Error ''Archive was expected to be open but it wasn't''"
  shows "((\<exists>e. getOpenedArchiveAlways st = Inl e) \<longleftrightarrow> openedArchive st = None)
    \<and> (\<forall>a. openedArchive st = Some a \<longrightarrow> getOpenedArchiveAlways st = Inr a)
    \<and> (openedArchive st = None \<longrightarrow>
          getOpenedArchiveAlways st = Inl err
        \<and> fetchVideosBrief E st kind = ([], Inl err)
        \<and> fetchVideoDetails E st video_id = ([], Inl err)
        \<and> deleteNote E st video_id nt = ([], Inl err)
        \<and> getVideoThumbnailApiLink st thumbnail_id = Inl err
        \<and> getVideoFileApiLink st video_id = Inl err)"
proof -
  have "(\<exists>e. getOpenedArchiveAlways st = Inl e) \<longleftrightarrow> openedArchive st = None"
    by (cases "openedArchive st") (simp_all add: getOpenedArchiveAlways_def)
  moreover have "\<forall>a. openedArchive st = Some a \<longrightarrow> getOpenedArchiveAlways st = Inr a"
    by (simp add: getOpenedArchiveAlways_def)
  moreover have "openedArchive st = None \<longrightarrow>
          getOpenedArchiveAlways st = Inl err
        \<and> fetchVideosBrief E st kind = ([], Inl err)
        \<and> fetchVideoDetails E st video_id = ([], Inl err)
        \<and> deleteNote E st video_id nt = ([], Inl err)
        \<and> getVideoThumbnailApiLink st thumbnail_id = Inl err
        \<and> getVideoFileApiLink st video_id = Inl err"
    by (simp add: err_def getOpenedArchiveApiLink_None getOpenedArchiveAlways_def
        fetchVideosBrief_def fetchVideoDetails_def deleteNote_def
        getVideoThumbnailApiLink_def getVideoFileApiLink_def)
  ultimately show ?thesis by blast
qed

text \<open>
  C2 on the initial store, where every operation fails, and on a store with an archive
  open.
\<close>

theorem getOpenedArchiveAlways_fails_iff_not_open_witness:
  "openedArchive initial_store = None
   \<and> getOpenedArchiveAlways initial_store = Inl (Error ''Archive was expected to be open but it wasn't'')
   \<and> fetchVideosBrief (example_env ''[1, 2]'') initial_store Shorts
       = ([], Inl (Error ''Archive was expected to be open but it wasn't''))
   \<and> fetchVideoDetails (example_env ''[1, 2]'') initial_store ''v1''
       = ([], Inl (Error ''Archive was expected to be open but it wasn't''))
   \<and> deleteNote (example_env ''[1, 2]'') initial_store ''v1'' example_note
       = ([], Inl (Error ''Archive was expected to be open but it wasn't''))
   \<and> getVideoThumbnailApiLink initial_store ''t1'' = Inl (Error ''Archive was expected to be open but it wasn't'')
   \<and> getVideoFileApiLink initial_store ''v1'' = Inl (Error ''Archive was expected to be open but it wasn't'')
   \<and> openedArchive example_open = Some \<lparr>server = ''https://h'', slug = ''abc''\<rparr>
   \<and> getOpenedArchiveAlways example_open = Inr \<lparr>server = ''https://h'', slug = ''abc''\<rparr>"
proof -
  have closed: "openedArchive initial_store = None"
    by (simp add: initial_store_def)
  have opened: "openedArchive example_open = Some \<lparr>server = ''https://h'', slug = ''abc''\<rparr>"
    by (simp add: example_open_def)
  from getOpenedArchiveAlways_fails_iff_not_open
         [where st = initial_store and E = "example_env ''[1, 2]''" and kind = Shorts
            and video_id = "''v1''" and nt = example_note and thumbnail_id = "''t1''"]
       getOpenedArchiveAlways_fails_iff_not_open
         [where st = example_open and E = "example_env ''[1, 2]''" and kind = Shorts
            and video_id = "''v1''" and nt = example_note and thumbnail_id = "''t1''"]
       closed opened
  show ?thesis by simp
qed

lemma fetchVideosBrief_requests:
  fixes E :: "'u env"
  assumes "openedArchive st = Some a" and "URL_new E (getArchiveApiLink a) = Inr u"
  shows "fst (fetchVideosBrief E st kind)
     = [GET (URL_href E (URL_searchParams_set E ''kind'' (archiveVideoKindToString kind) u))]"
  using assms
  by (simp add: fetchVideosBrief_def getOpenedArchiveApiLink_Some Let_def split: sum.splits)

lemma fetchVideosBrief_plain_slash:
  "fst (fetchVideosBrief (plain_env f secret)
         \<lparr>openedArchive = Some \<lparr>server = ''https://h/'', slug = ''abc''\<rparr>, recents = rs\<rparr> kind)
     = [GET (''https://h//archive/abc?kind='' @ archiveVideoKindToString kind)]"
  using fetchVideosBrief_requests [of _ "\<lparr>server = ''https://h/'', slug = ''abc''\<rparr>"
      "plain_env f secret"
      "\<lparr>scheme = ''https'', host = ''h'', pathname = ''//archive/abc'', searchParams = []\<rparr>"]
  by (simp add: getArchiveApiLink_def plain_env_def plain_URL_new_slash
        plain_searchParams_set_def plain_href_def)

lemma fetchVideosBrief_plain_noslash:
  "fst (fetchVideosBrief (plain_env f secret)
         \<lparr>openedArchive = Some \<lparr>server = ''https://h'', slug = ''abc''\<rparr>, recents = rs\<rparr> kind)
     = [GET (''https://h/archive/abc?kind='' @ archiveVideoKindToString kind)]"
  using fetchVideosBrief_requests [of _ "\<lparr>server = ''https://h'', slug = ''abc''\<rparr>"
      "plain_env f secret"
      "\<lparr>scheme = ''https'', host = ''h'', pathname = ''/archive/abc'', searchParams = []\<rparr>"]
  by (simp add: getArchiveApiLink_def plain_env_def plain_URL_new_noslash
        plain_searchParams_set_def plain_href_def)

text \<open>
  A response text that is a JSON array is returned as parsed, its elements and their
  order unchanged.
\<close>

lemma fetchVideosBrief_array:
  fixes E :: "'u env"
  assumes "openedArchive st = Some a" and "URL_new E (getArchiveApiLink a) = Inr u"
    and "fetch E (GET (URL_href E (URL_searchParams_set E ''kind'' (archiveVideoKindToString kind) u)))
           = Inr resp"
    and "JSON_parse (resp_text resp) = Inr (JArray xs)"
  shows "fetchVideosBrief E st kind
     = ([GET (URL_href E (URL_searchParams_set E ''kind'' (archiveVideoKindToString kind) u))],
        Inr (JArray xs))"
  using assms
  by (simp add: fetchVideosBrief_def getOpenedArchiveApiLink_Some Let_def)

lemma createNewRemoteArchive_requests:
  fixes E :: "'u env"
  assumes "URL_new E (server p) = Inr u" and "getAdminSecret E = Inr secret"
  shows "fst (createNewRemoteArchive E p)
     = [create_request
          (URL_href E (URL_searchParams_set E ''intent'' ''create'' (URL_set_pathname E ''/archive'' u)))
          secret p]"
  using assms
  by (simp add: createNewRemoteArchive_def create_request_def Let_def split: sum.splits)

lemma createNewRemoteArchive_result:
  fixes E :: "'u env"
  assumes "URL_new E (server p) = Inr u" and "getAdminSecret E = Inr secret"
    and "fetch E (create_request
          (URL_href E (URL_searchParams_set E ''intent'' ''create'' (URL_set_pathname E ''/archive'' u)))
          secret p) = Inr resp"
    and "JSON_parse (resp_text resp) = Inr resp_json"
    and "property_slug resp_json = Inr s"
  shows "snd (createNewRemoteArchive E p) = Inr \<lparr>created_server = server p, created_slug = s\<rparr>"
  using assms
  by (simp add: createNewRemoteArchive_def create_request_def Let_def)

lemma plain_create_url:
  assumes "plain_URL_new srv = Inr \<lparr>scheme = ''https'', host = ''h'', pathname = pth, searchParams = []\<rparr>"
  shows "map req_url (fst (createNewRemoteArchive (plain_env f (Inr secret))
            \<lparr>server = srv, slug = sl, path = pa, target = ta\<rparr>))
         = [''https://h/archive?intent=create'']"
  using createNewRemoteArchive_requests [of "plain_env f (Inr secret)"
      "\<lparr>server = srv, slug = sl, path = pa, target = ta\<rparr>"
      "\<lparr>scheme = ''https'', host = ''h'', pathname = pth, searchParams = []\<rparr>" secret] assms
  by (simp add: plain_env_def plain_set_pathname_def set_pathname_archive
      plain_searchParams_set_def plain_href_def create_request_def)

lemma JSON_parse_slug:
  "JSON_parse (JSON_stringify (JObject [(''slug'', JString ''abc'')]))
     = Inr (JObject [(''slug'', JString ''abc'')])"
  by code_simp

text \<open>
  C3. In the example state (server \<^verbatim>\<open>https://h/\<close>, slug \<^verbatim>\<open>abc\<close>) \<^verbatim>\<open>fetchVideosBrief(Shorts)\<close>
  requests \<^verbatim>\<open>GET https://h//archive/abc?kind=shorts\<close>, with two slashes after the host:
  \<^verbatim>\<open>getArchiveApiLink\<close> puts \<^verbatim>\<open>/archive/\<close> after the slash that ends the server. For the same
  server \<^verbatim>\<open>createNewRemoteArchive\<close> requests \<^verbatim>\<open>https://h/archive?intent=create\<close>, with one
  slash.
\<close>

theorem fetchVideosBrief_doubles_slash:
  "fst (fetchVideosBrief (example_env ''[1, 2]'')
         \<lparr>openedArchive = Some \<lparr>server = ''https://h/'', slug = ''abc''\<rparr>, recents = []\<rparr> Shorts)
     = [GET ''https://h//archive/abc?kind=shorts'']
   \<and> GET ''https://h//archive/abc?kind=shorts'' \<noteq> GET ''https://h/archive/abc?kind=shorts''
   \<and> map req_url (fst (createNewRemoteArchive (example_env ''[1, 2]'')
         \<lparr>server = ''https://h/'', slug = ''abc'', path = ''/data/abc'',
           target = ''https://www.youtube.com/c/x''\<rparr>))
     = [''https://h/archive?intent=create'']"
  using plain_create_url [OF plain_URL_new_origin_slash]
  by (simp add: example_env_def fetchVideosBrief_plain_slash GET_def)

text \<open>
  C5. For the server \<^verbatim>\<open>https://h/api\<close> \<^verbatim>\<open>createNewRemoteArchive\<close> posts to
  \<^verbatim>\<open>https://h/archive?intent=create\<close>: the assignment to \<^verbatim>\<open>url.pathname\<close> drops the path
  \<^verbatim>\<open>/api\<close> of the server. It returns an archive with the server \<^verbatim>\<open>https://h/api\<close>, and
  \<^verbatim>\<open>fetchVideosBrief\<close> on that archive requests under \<^verbatim>\<open>https://h/api/archive/\<close>.
\<close>

theorem createNewRemoteArchive_drops_server_path:
  "createNewRemoteArchive (example_env (JSON_stringify (JObject [(''slug'', JString ''abc'')])))
      \<lparr>server = ''https://h/api'', slug = ''abc'', path = ''/data/abc'',
        target = ''https://www.youtube.com/c/x''\<rparr>
     = ([create_request ''https://h/archive?intent=create'' ''secret''
           \<lparr>server = ''https://h/api'', slug = ''abc'', path = ''/data/abc'',
             target = ''https://www.youtube.com/c/x''\<rparr>],
        Inr \<lparr>created_server = ''https://h/api'', created_slug = Some (JString ''abc'')\<rparr>)
   \<and> ''https://h/archive?intent=create'' \<noteq> ''https://h/api'' @ ''/archive?intent=create''
   \<and> fst (fetchVideosBrief (example_env ''[1, 2]'')
         \<lparr>openedArchive = Some \<lparr>server = ''https://h/api'', slug = ''abc''\<rparr>, recents = []\<rparr> Videos)
     = [GET ''https://h/api/archive/abc?kind=videos'']"
proof -
  let ?txt = "JSON_stringify (JObject [(''slug'', JString ''abc'')])"
  let ?p = "\<lparr>server = ''https://h/api'', slug = ''abc'', path = ''/data/abc'',
               target = ''https://www.youtube.com/c/x''\<rparr>"
  let ?u = "\<lparr>scheme = ''https'', host = ''h'', pathname = ''/api'', searchParams = []\<rparr>"
  let ?a = "\<lparr>server = ''https://h/api'', slug = ''abc''\<rparr>"
  let ?v = "\<lparr>scheme = ''https'', host = ''h'', pathname = ''/api/archive/abc'', searchParams = []\<rparr>"
  have url: "URL_new (example_env ?txt) (server ?p) = Inr ?u"
    by (simp add: example_env_def plain_env_def plain_URL_new_api)
  have sec: "getAdminSecret (example_env ?txt) = Inr ''secret''"
    by (simp add: example_env_def plain_env_def)
  have href: "URL_href (example_env ?txt)
        (URL_searchParams_set (example_env ?txt) ''intent'' ''create''
           (URL_set_pathname (example_env ?txt) ''/archive'' ?u))
      = ''https://h/archive?intent=create''"
    by (simp add: example_env_def plain_env_def plain_set_pathname_def set_pathname_archive
        plain_searchParams_set_def plain_href_def)
  have resp: "fetch (example_env ?txt) req = Inr \<lparr>resp_status = 500, resp_text = ?txt\<rparr>" for req
    by (simp add: example_env_def plain_env_def)
  have "fst (createNewRemoteArchive (example_env ?txt) ?p)
      = [create_request ''https://h/archive?intent=create'' ''secret'' ?p]"
    using createNewRemoteArchive_requests [OF url sec] href by simp
  moreover have "snd (createNewRemoteArchive (example_env ?txt) ?p)
      = Inr \<lparr>created_server = ''https://h/api'', created_slug = Some (JString ''abc'')\<rparr>"
    using createNewRemoteArchive_result [OF url sec resp, of "JObject [(''slug'', JString ''abc'')]"
        "Some (JString ''abc'')"] JSON_parse_slug
    by (simp del: JSON_stringify.simps)
  ultimately have create: "createNewRemoteArchive (example_env ?txt) ?p
      = ([create_request ''https://h/archive?intent=create'' ''secret'' ?p],
         Inr \<lparr>created_server = ''https://h/api'', created_slug = Some (JString ''abc'')\<rparr>)"
    by (simp add: prod_eq_iff)
  have "fst (fetchVideosBrief (example_env ''[1, 2]'') \<lparr>openedArchive = Some ?a, recents = []\<rparr> Videos)
      = [GET ''https://h/api/archive/abc?kind=videos'']"
    using fetchVideosBrief_requests [of "\<lparr>openedArchive = Some ?a, recents = []\<rparr>" ?a
        "example_env ''[1, 2]''" ?v Videos]
    by (simp add: getArchiveApiLink_def example_env_def plain_env_def plain_URL_new_api_link
        plain_searchParams_set_def plain_href_def)
  with create show ?thesis by simp
qed








text \<open>
  C7. \<^verbatim>\<open>videoWasUpdated(v)\<close> is true if and only if \<^verbatim>\<open>elementWasUpdated\<close> holds of the
  title, the description or the thumbnail of \<open>v\<close>; it does not depend on the views, likes
  and deleted elements; and it is false when \<^verbatim>\<open>elementWasUpdated\<close> holds of none of the
  three.
\<close>

theorem videoWasUpdated_iff:
  "videoWasUpdated elementWasUpdated v
     = (elementWasUpdated (title v) \<or> elementWasUpdated (description v)
        \<or> elementWasUpdated (thumbnail v))
   \<and> videoWasUpdated elementWasUpdated (v\<lparr>views := x, likes := y, deleted := z\<rparr>)
     = videoWasUpdated elementWasUpdated v
   \<and> (\<not> elementWasUpdated (title v) \<and> \<not> elementWasUpdated (description v)
        \<and> \<not> elementWasUpdated (thumbnail v) \<longrightarrow> \<not> videoWasUpdated elementWasUpdated v)"
  by (simp add: videoWasUpdated_def)

text \<open>
  C7 with elements that are lists of recorded values, updated when they hold more than
  one: a video whose views, likes and deleted elements changed is not updated, and is
  updated once its thumbnail has changed.
\<close>

theorem videoWasUpdated_iff_witness:
  "\<not> videoWasUpdated (\<lambda>history. 1 < length history) example_video
   \<and> videoWasUpdated (\<lambda>history. 1 < length history) (example_video\<lparr>thumbnail := [1, 2]\<rparr>)"
  using videoWasUpdated_iff [of "\<lambda>history. 1 < length history" example_video]
        videoWasUpdated_iff [of "\<lambda>history. 1 < length history" "example_video\<lparr>thumbnail := [1, 2]\<rparr>"]
  by (simp add: example_video_def)




text \<open>
  C10. Two notes with the same id give the same requests and the same outcome of
  \<^verbatim>\<open>deleteNote\<close>, in every environment and store and for every video id: the timestamp,
  title and body of the note are not used.
\<close>

theorem deleteNote_depends_on_id_only:
  fixes E :: "'u env" and n1 n2 :: "'n Note"
  assumes "note_id n1 = note_id n2"
  shows "deleteNote E st video_id n1 = deleteNote E st video_id n2"
  unfolding deleteNote_def assms by (rule refl)

text \<open>
  C10 for two notes that share the id and differ in timestamp, title and body.
\<close>

theorem deleteNote_depends_on_id_only_witness:
  "note_id example_note = note_id (example_note\<lparr>timestamp := 99, note_title := ''x'', note_body := ''y''\<rparr>)
   \<and> example_note \<noteq> example_note\<lparr>timestamp := 99, note_title := ''x'', note_body := ''y''\<rparr>
   \<and> deleteNote (example_env ''[]'') example_open ''v1'' example_note
       = deleteNote (example_env ''[]'') example_open ''v1''
           (example_note\<lparr>timestamp := 99, note_title := ''x'', note_body := ''y''\<rparr>)"
proof -
  have same: "note_id example_note
      = note_id (example_note\<lparr>timestamp := 99, note_title := ''x'', note_body := ''y''\<rparr>)"
    by simp
  from deleteNote_depends_on_id_only [OF same] show ?thesis
    by (simp add: example_note_def)
qed

end
